theory Spec2Isabelle
  imports Complex_Main
begin

section \<open>Data model\<close>

text \<open>
  JavaScript numbers are modelled as reals where they carry measured values (angles,
  timestamps, square size, frame rate) and as naturals where they count (pattern columns
  and rows, list lengths, the capture counter). NaN and signed zero are outside the model.
\<close>

text \<open>The type \<open>Point\<close> of the source: one pose, angles in degrees.\<close>

record Point =
  pitch :: real
  yaw :: real
  roll :: real
  distance :: real

text \<open>
  The guidance strings of the source are not ASCII; each distinct literal is one
  constructor. In source order: "move camera or board up and down", "move camera or board
  left and right", "rotate board or camera", "current angle is fine, keep capturing!" and
  the hook's final "capture finished, starting calibration!".
\<close>

datatype Message =
    MoveVertically
  | MoveHorizontally
  | RotateBoard
  | AngleAcceptable
  | CaptureFinished

text \<open>
  What the external collaborators hand to one tick: the video dimensions, the clock
  (\<open>performance.now()\<close>), the detector's verdict and its corner buffer
  (\<open>corners.data32F\<close>), and the pose that \<open>solvePnP\<close> and \<open>analyzePose\<close> give for
  these corners.
\<close>

record Frame =
  videoWidth :: nat
  videoHeight :: nat
  now :: real
  found :: bool
  corners :: "real list"
  angles :: Point

section \<open>Object-point grid: \<open>prepareObjectPoints\<close>\<close>

text \<open>The inner loop \<open>for (let j = 0; j < colNum; j++) objp.push([j * s, i * s, 0])\<close>.\<close>

function colLoop :: "nat \<Rightarrow> real \<Rightarrow> nat \<Rightarrow> nat \<Rightarrow> real list list \<Rightarrow> real list list" where
  "colLoop cols s i j objp =
     (if j < cols then colLoop cols s i (Suc j) (objp @ [[real j * s, real i * s, 0]])
      else objp)"
  by pat_completeness auto
termination
  by (relation "measure (\<lambda>(cols, s, i, j, objp). cols - j)") auto

text \<open>The outer loop \<open>for (let i = 0; i < rowNum; i++)\<close>.\<close>

function rowLoop :: "nat \<Rightarrow> nat \<Rightarrow> real \<Rightarrow> nat \<Rightarrow> real list list \<Rightarrow> real list list" where
  "rowLoop rows cols s i objp =
     (if i < rows then rowLoop rows cols s (Suc i) (colLoop cols s i 0 objp)
      else objp)"
  by pat_completeness auto
termination
  by (relation "measure (\<lambda>(rows, cols, s, i, objp). rows - i)") auto

declare colLoop.simps [simp del] rowLoop.simps [simp del]

definition prepareObjectPoints :: "nat \<Rightarrow> nat \<Rightarrow> real \<Rightarrow> real list list" where
  "prepareObjectPoints rows cols s = rowLoop rows cols s 0 []"

section \<open>Guidance: \<open>getGuidance\<close>\<close>

definition threshold :: real where
  "threshold = 10"

text \<open>
  The loop \<open>for (const h of history)\<close> with its three running maxima, started at
  \<open>(0, 0, 0)\<close>.
\<close>

fun maxDiffs :: "Point \<Rightarrow> Point list \<Rightarrow> real \<times> real \<times> real \<Rightarrow> real \<times> real \<times> real" where
  "maxDiffs newAngle [] acc = acc"
| "maxDiffs newAngle (h # history) (maxPitchDiff, maxYawDiff, maxRollDiff) =
     maxDiffs newAngle history
       (max maxPitchDiff \<bar>pitch newAngle - pitch h\<bar>,
        max maxYawDiff \<bar>yaw newAngle - yaw h\<bar>,
        max maxRollDiff \<bar>roll newAngle - roll h\<bar>)"

definition getGuidance :: "Point \<Rightarrow> Point list \<Rightarrow> Message" where
  "getGuidance newAngle history =
     (case maxDiffs newAngle history (0, 0, 0) of
        (maxPitchDiff, maxYawDiff, maxRollDiff) \<Rightarrow>
          if maxPitchDiff < threshold then MoveVertically
          else if maxYawDiff < threshold then MoveHorizontally
          else if maxRollDiff < threshold then RotateBoard
          else AngleAcceptable)"

section \<open>Matrices of the vision library: \<open>cv.matFromArray\<close>\<close>

text \<open>The exceptions a tick can end with.\<close>

datatype Error = TypeError | RangeError

text \<open>The three element types the source asks for, with their floats per element.\<close>

datatype MatType = CV_32F | CV_32FC2 | CV_32FC3

fun channels :: "MatType \<Rightarrow> nat" where
  "channels CV_32F = 1"
| "channels CV_32FC2 = 2"
| "channels CV_32FC3 = 3"

text \<open>
  A matrix: its shape, its element type and \<open>matData\<close>, the floats copied into its buffer
  from the start. \<open>clone\<close> is the identity on this model.
\<close>

record Mat =
  matRows :: nat
  matCols :: nat
  matType :: MatType
  matData :: "real list"

text \<open>
  \<open>cv.matFromArray(rows, cols, type, array)\<close> belongs to opencv.js, not to this
  repository. It allocates a buffer of \<open>rows * cols * channels\<close> floats and copies the
  array into it with the typed array's \<open>set\<close>, which throws a RangeError when the array
  is longer than the buffer. When the array is shorter, the rest of the buffer is left
  uninitialised; that rest is not part of the model.
\<close>

definition matFromArray :: "nat \<Rightarrow> nat \<Rightarrow> MatType \<Rightarrow> real list \<Rightarrow> Error + Mat" where
  "matFromArray r c ty arr =
     (if r * c * channels ty < length arr then Inl RangeError
      else Inr \<lparr>matRows = r, matCols = c, matType = ty, matData = arr\<rparr>)"

section \<open>The guided controller: class \<open>Camera\<close> of models/camera.ts\<close>

text \<open>The fields that the three versions of the class share.\<close>

record CameraBase =
  colNum :: nat
  rowNum :: nat
  squareSize :: real
  anglesHist :: "Point list"

record Camera = CameraBase +
  objp :: "real list list"
  objectPoints :: "real list list list"
  imagePoints :: "real list list"
  captured :: nat

text \<open>The field initialisers of the class; the constructor touches none of them.\<close>

definition newCamera :: Camera where
  "newCamera =
     \<lparr>colNum = 0, rowNum = 0, squareSize = 0, anglesHist = [],
      objp = [], objectPoints = [], imagePoints = [], captured = 0\<rparr>"

text \<open>
  \<open>BlockConfig\<close>: \<open>colNum\<close> and \<open>rowNum\<close> are optional. \<open>x || y\<close> keeps \<open>y\<close> when
  \<open>x\<close> is undefined or 0.
\<close>

record BlockConfig =
  cfgColNum :: "nat option"
  cfgRowNum :: "nat option"
  cfgSquareSize :: real

definition orElseNat :: "nat option \<Rightarrow> nat \<Rightarrow> nat" where
  "orElseNat x y = (case x of None \<Rightarrow> y | Some v \<Rightarrow> if v = 0 then y else v)"

definition orElseReal :: "real option \<Rightarrow> real \<Rightarrow> real" where
  "orElseReal x y = (case x of None \<Rightarrow> y | Some v \<Rightarrow> if v = 0 then y else v)"

definition setBlockConfig :: "BlockConfig \<Rightarrow> Camera \<Rightarrow> Camera" where
  "setBlockConfig config this =
     (let c = orElseNat (cfgColNum config) (colNum this);
          r = orElseNat (cfgRowNum config) (rowNum this);
          s = orElseReal (Some (cfgSquareSize config)) (squareSize this)
      in this\<lparr>colNum := c, rowNum := r, squareSize := s,
               objp := prepareObjectPoints r c s\<rparr>)"

text \<open>
  One call of \<open>draw\<close> that returns: the new state paired with the tip computed on this
  tick, if any. Canvas drawing and the release of OpenCV buffers are not modelled. The
  two matrices built for the pose solver are the subject of \<open>drawOutcome\<close> below.
\<close>

definition draw :: "Camera \<Rightarrow> Frame \<Rightarrow> Camera \<times> Message option" where
  "draw this f =
     (if videoHeight f = 0 \<or> videoWidth f = 0 then (this, None)
      else if found f then
        (let tip = getGuidance (angles f) (anglesHist this) in
           (if tip = AngleAcceptable
            then this\<lparr>objectPoints := objectPoints this @ [objp this],
                      imagePoints := imagePoints this @ [corners f],
                      anglesHist := anglesHist this @ [angles f],
                      captured := captured this + 1\<rparr>
            else this,
            Some tip))
      else (this, None))"

text \<open>
  Whether a call of \<open>draw\<close> returns at all. When corners are found, it first builds
  \<open>objMat\<close> from the flattened grid and \<open>imgMat\<close> from the corner buffer, before the
  pose is estimated and before anything is stored; either \<open>matFromArray\<close> may throw, and
  then the call ends there with the state as it was.
\<close>

definition drawOutcome :: "Camera \<Rightarrow> Frame \<Rightarrow> Error \<times> Camera + Camera \<times> Message option" where
  "drawOutcome this f =
     (if videoHeight f = 0 \<or> videoWidth f = 0 then Inr (draw this f)
      else if found f then
        (case matFromArray (colNum this * rowNum this) 1 CV_32FC3 (concat (objp this)) of
           Inl e \<Rightarrow> Inl (e, this)
         | Inr objMat0 \<Rightarrow>
             (case matFromArray (colNum this * rowNum this) 1 CV_32FC2 (corners f) of
                Inl e \<Rightarrow> Inl (e, this)
              | Inr imgMat \<Rightarrow> Inr (draw this f)))
      else Inr (draw this f))"

text \<open>A session: \<open>draw\<close> once per frame, collecting the tips in order.\<close>

fun runDraw :: "Camera \<Rightarrow> Frame list \<Rightarrow> Camera \<times> Message option list" where
  "runDraw this [] = (this, [])"
| "runDraw this (f # fs) =
     (case draw this f of (this', tip) \<Rightarrow>
        (case runDraw this' fs of (this'', tips) \<Rightarrow> (this'', tip # tips)))"

section \<open>Frame throttler: \<open>createTrigger\<close>\<close>

text \<open>
  \<open>interval = 1000 / fps\<close>. JavaScript division by zero gives \<open>Infinity\<close> where HOL
  gives 0, so the quotient has its own type.
\<close>

datatype Interval = Finite real | PosInfinity

definition intervalOf :: "real \<Rightarrow> Interval" where
  "intervalOf fps = (if fps = 0 then PosInfinity else Finite (1000 / fps))"

text \<open>The comparison \<open>elapsed >= interval\<close>.\<close>

fun reached :: "real \<Rightarrow> Interval \<Rightarrow> bool" where
  "reached elapsed (Finite d) = (d \<le> elapsed)"
| "reached elapsed PosInfinity = False"

text \<open>The closure returned by \<open>createTrigger\<close>: its two captured variables.\<close>

record Trigger =
  lastTime :: real
  interval :: Interval

definition createTrigger :: "real \<Rightarrow> Trigger" where
  "createTrigger fps = \<lparr>lastTime = 0, interval = intervalOf fps\<rparr>"

text \<open>One call of the closure at clock value \<open>t\<close>: the result and the closure after it.\<close>

definition callTrigger :: "Trigger \<Rightarrow> real \<Rightarrow> bool \<times> Trigger" where
  "callTrigger tr t =
     (if reached (t - lastTime tr) (interval tr) then (True, tr\<lparr>lastTime := t\<rparr>)
      else (False, tr))"

text \<open>A sequence of calls, one per clock value, with the results in order.\<close>

fun runTrigger :: "Trigger \<Rightarrow> real list \<Rightarrow> bool list \<times> Trigger" where
  "runTrigger tr [] = ([], tr)"
| "runTrigger tr (t # ts) =
     (case callTrigger tr t of (r, tr') \<Rightarrow>
        (case runTrigger tr' ts of (rs, tr'') \<Rightarrow> (r # rs, tr'')))"

section \<open>The throttled, calibrating controller: the later version of class \<open>Camera\<close>\<close>

record ThrottledCamera = CameraBase +
  fps :: real
  trigger :: Trigger
  objMat :: "Mat option"
  objpointsMat :: "Mat list"
  imgpointsMat :: "Mat list"

text \<open>\<open>CameraConfig\<close>, reduced to the field the model reads: \<open>fps?: number\<close>.\<close>

record CameraConfig =
  cfgFps :: "real option"

text \<open>
  The constructor with the field initialisers. Both later versions of the class set the
  rate the same way: \<open>this.fps = config.fps || 10\<close>.
\<close>

definition Camera_constructor :: "CameraConfig \<Rightarrow> ThrottledCamera" where
  "Camera_constructor config =
     (let f = orElseReal (cfgFps config) 10
      in \<lparr>colNum = 10, rowNum = 7, squareSize = 1, anglesHist = [],
          fps = f, trigger = createTrigger f, objMat = None,
          objpointsMat = [], imgpointsMat = []\<rparr>)"

text \<open>
  The setter builds \<open>objMat\<close> from the flattened grid. The grid has \<open>r * c\<close> points of
  three floats, exactly the buffer asked for, so this \<open>matFromArray\<close> never throws
  (\<open>setBlockConfigT_objMat\<close> below); the second case only completes the case
  distinction.
\<close>

definition setBlockConfigT :: "BlockConfig \<Rightarrow> ThrottledCamera \<Rightarrow> ThrottledCamera" where
  "setBlockConfigT config this =
     (let c = orElseNat (cfgColNum config) (colNum this);
          r = orElseNat (cfgRowNum config) (rowNum this);
          s = orElseReal (Some (cfgSquareSize config)) (squareSize this);
          this' = this\<lparr>colNum := c, rowNum := r, squareSize := s\<rparr>
      in case matFromArray (c * r) 3 CV_32F (concat (prepareObjectPoints r c s)) of
           Inr m \<Rightarrow> this'\<lparr>objMat := Some m\<rparr>
         | Inl e \<Rightarrow> this')"

text \<open>
  \<open>calibrateCamera(imageSize)\<close> passes the two accumulated vectors and the image size to
  the external solver; the model records that call.
\<close>

record SolverCall =
  solverObjpoints :: "Mat list"
  solverImgpoints :: "Mat list"
  solverImageSize :: "nat \<times> nat"

definition calibrateCamera :: "ThrottledCamera \<Rightarrow> nat \<times> nat \<Rightarrow> SolverCall" where
  "calibrateCamera this imageSize =
     \<lparr>solverObjpoints = objpointsMat this, solverImgpoints = imgpointsMat this,
      solverImageSize = imageSize\<rparr>"

definition minSamples :: nat where
  "minSamples = 15"

text \<open>
  One call of the throttled \<open>draw\<close>. The canvas takes the video's size, so
  \<open>gray.size()\<close> is that size. A call that returns gives the new state and the solver
  call of this tick, if any. A call that throws gives the exception and the state it
  leaves behind: \<open>this.objMat!.clone()\<close> throws on a null \<open>objMat\<close>, and
  \<open>matFromArray\<close> throws on a corner buffer longer than the image matrix, after the
  object matrix has been pushed and before the image matrix is.
\<close>

definition drawT ::
  "ThrottledCamera \<Rightarrow> Frame \<Rightarrow> Error \<times> ThrottledCamera + ThrottledCamera \<times> SolverCall option" where
  "drawT this f =
     (if videoHeight f = 0 \<or> videoWidth f = 0 then Inr (this, None)
      else
        (case callTrigger (trigger this) (now f) of
           (fire, tr) \<Rightarrow>
             if \<not> fire then Inr (this\<lparr>trigger := tr\<rparr>, None)
             else if found f then
               (case objMat this of
                  None \<Rightarrow> Inl (TypeError, this\<lparr>trigger := tr\<rparr>)
                | Some m \<Rightarrow>
                    (let this1 = this\<lparr>trigger := tr,
                                     objpointsMat := objpointsMat this @ [m]\<rparr>
                     in case matFromArray (colNum this * rowNum this) 2 CV_32F (corners f) of
                          Inl e \<Rightarrow> Inl (e, this1)
                        | Inr imgMat \<Rightarrow>
                            (let this' = this1\<lparr>imgpointsMat := imgpointsMat this1 @ [imgMat]\<rparr>
                             in if minSamples \<le> length (objpointsMat this')
                                then Inr (this',
                                          Some (calibrateCamera this' (videoWidth f, videoHeight f)))
                                else Inr (this', None))))
             else Inr (this\<lparr>trigger := tr\<rparr>, None)))"

text \<open>A session of the throttled controller; it stops at the first exception.\<close>

fun runDrawT ::
  "ThrottledCamera \<Rightarrow> Frame list \<Rightarrow>
     Error \<times> ThrottledCamera + ThrottledCamera \<times> SolverCall option list" where
  "runDrawT this [] = Inr (this, [])"
| "runDrawT this (f # fs) =
     (case drawT this f of
        Inl e \<Rightarrow> Inl e
      | Inr (this', c) \<Rightarrow>
          (case runDrawT this' fs of
             Inl e \<Rightarrow> Inl e
           | Inr (this'', cs) \<Rightarrow> Inr (this'', c # cs)))"

section \<open>The hook: \<open>captureWithGuidance\<close>\<close>

text \<open>The local variables of the capture loop and the guidance the hook publishes.\<close>

record Capture =
  capCaptured :: nat
  capObjectPoints :: "real list list list"
  capImagePoints :: "real list list"
  capAnglesHist :: "Point list"
  guidance :: "Message option"

definition newCapture :: Capture where
  "newCapture =
     \<lparr>capCaptured = 0, capObjectPoints = [], capImagePoints = [], capAnglesHist = [],
      guidance = None\<rparr>"

text \<open>
  The body of one iteration; \<open>capture()\<close> may return null, and then the iteration
  changes nothing.
\<close>

definition captureStep :: "real list list \<Rightarrow> Capture \<Rightarrow> Frame option \<Rightarrow> Capture" where
  "captureStep objp0 st frame =
     (case frame of
        None \<Rightarrow> st
      | Some f \<Rightarrow>
          if found f then
            (let tip = getGuidance (angles f) (capAnglesHist st);
                 st' = st\<lparr>guidance := Some tip\<rparr>
             in if tip = AngleAcceptable
                then st'\<lparr>capObjectPoints := capObjectPoints st' @ [objp0],
                         capImagePoints := capImagePoints st' @ [corners f],
                         capAnglesHist := capAnglesHist st' @ [angles f],
                         capCaptured := capCaptured st' + 1\<rparr>
                else st')
          else st)"

text \<open>
  The loop \<open>for (let captured = 0; captured < numImages;)\<close> over the stream of what
  \<open>capture()\<close> returns, call by call. It need not end: the value \<open>None\<close> is a run that
  never leaves the loop. (An iteration builds the same two matrices as \<open>draw\<close>; an
  exception there would end the call without reaching the code after the loop, which
  the model does not tell apart from staying in it.)
\<close>

partial_function (option) captureLoop ::
  "nat \<Rightarrow> real list list \<Rightarrow> (nat \<Rightarrow> Frame option) \<Rightarrow> nat \<Rightarrow> Capture \<Rightarrow> Capture option" where
  "captureLoop numImages objp0 capture k st =
     (if capCaptured st < numImages
      then captureLoop numImages objp0 capture (Suc k) (captureStep objp0 st (capture k))
      else Some (st\<lparr>guidance := Some CaptureFinished\<rparr>))"

definition captureWithGuidance ::
  "nat \<Rightarrow> nat \<Rightarrow> nat \<Rightarrow> real \<Rightarrow> (nat \<Rightarrow> Frame option) \<Rightarrow> Capture option" where
  "captureWithGuidance numImages rows cols s capture =
     captureLoop numImages (prepareObjectPoints rows cols s) capture 0 newCapture"

section \<open>Concrete inputs\<close>

text \<open>The \<open>6 \<times> 6\<close> pattern with unit squares.\<close>

definition pattern66 :: BlockConfig where
  "pattern66 = \<lparr>cfgColNum = Some 6, cfgRowNum = Some 6, cfgSquareSize = 1\<rparr>"

definition pose :: "real \<Rightarrow> real \<Rightarrow> real \<Rightarrow> real \<Rightarrow> Point" where
  "pose p y r d = \<lparr>pitch = p, yaw = y, roll = r, distance = d\<rparr>"

text \<open>
  A 640 by 480 frame at clock value \<open>t\<close> on which the detector reports \<open>n\<close> corner
  points (two floats each) and the pose solver reports \<open>P\<close>.
\<close>

definition detected :: "real \<Rightarrow> nat \<Rightarrow> Point \<Rightarrow> Frame" where
  "detected t n P =
     \<lparr>videoWidth = 640, videoHeight = 480, now = t, found = True,
      corners = replicate (2 * n) 0, angles = P\<rparr>"

text \<open>The four poses of the end-to-end scenario, 100 ms apart.\<close>

definition scenario :: "Frame list" where
  "scenario =
     [detected 100 36 (pose 0 0 0 1), detected 200 36 (pose 15 0 0 1),
      detected 300 36 (pose 15 15 0 1), detected 400 36 (pose 15 15 15 1)]"

text \<open>Whether a tick's tip is the accept message, as \<open>draw\<close> tests it.\<close>

definition accepted :: "Message option \<Rightarrow> bool" where
  "accepted tip = (tip = Some AngleAcceptable)"

text \<open>
  The throttled controller as the application sets it up: default frame rate, then the
  \<open>6 \<times> 6\<close> pattern.
\<close>

definition fresh66 :: ThrottledCamera where
  "fresh66 = setBlockConfigT pattern66 (Camera_constructor \<lparr>cfgFps = None\<rparr>)"

text \<open>The object matrix of the \<open>6 \<times> 6\<close> pattern, as the setter builds it.\<close>

definition grid66Mat :: Mat where
  "grid66Mat =
     \<lparr>matRows = 36, matCols = 3, matType = CV_32F,
      matData = concat (prepareObjectPoints 6 6 1)\<rparr>"

text \<open>\<open>n\<close> frames with the full pattern detected, 100 ms apart.\<close>

definition steady :: "nat \<Rightarrow> Frame list" where
  "steady n = map (\<lambda>k. detected (100 * real (Suc k)) 36 (pose 0 0 0 1)) [0..<n]"

text \<open>A guided controller whose history already holds one pose.\<close>

definition seeded66 :: Camera where
  "seeded66 = (setBlockConfig pattern66 newCamera)\<lparr>anglesHist := [pose 0 0 0 1]\<rparr>"

section \<open>The object-point grid\<close>

text \<open>Both loops only append: the grid is the rows, each a run of columns.\<close>

lemma colLoop_eq:
  "colLoop cols s i j acc = acc @ map (\<lambda>j. [real j * s, real i * s, 0]) [j..<cols]"
proof (induction cols s i j acc rule: colLoop.induct)
  case (1 cols s i j acc)
  show ?case
  proof (cases "j < cols")
    case True
    then show ?thesis
      using "1.IH" by (subst colLoop.simps) (simp add: upt_conv_Cons)
  next
    case False
    then show ?thesis by (subst colLoop.simps) simp
  qed
qed

lemma rowLoop_eq:
  "rowLoop rows cols s i acc =
     acc @ concat (map (\<lambda>i. map (\<lambda>j. [real j * s, real i * s, 0]) [0..<cols]) [i..<rows])"
proof (induction rows cols s i acc rule: rowLoop.induct)
  case (1 rows cols s i acc)
  show ?case
  proof (cases "i < rows")
    case True
    then show ?thesis
      using "1.IH" by (subst rowLoop.simps) (simp add: upt_conv_Cons colLoop_eq)
  next
    case False
    then show ?thesis by (subst rowLoop.simps) simp
  qed
qed

lemma prepareObjectPoints_eq:
  "prepareObjectPoints rows cols s =
     concat (map (\<lambda>i. map (\<lambda>j. [real j * s, real i * s, 0]) [0..<cols]) [0..<rows])"
  by (simp add: prepareObjectPoints_def rowLoop_eq)

lemma length_grid:
  "length (concat (map (\<lambda>i. map (g i) [0..<cols]) [0..<rows])) = rows * cols"
  by (induction rows) simp_all

lemma nth_grid:
  "i < rows \<Longrightarrow> j < cols \<Longrightarrow>
     concat (map (\<lambda>i. map (g i) [0..<cols]) [0..<rows]) ! (i * cols + j) = g i j"
proof (induction rows)
  case 0
  then show ?case by simp
next
  case (Suc rows)
  show ?case
  proof (cases "i < rows")
    case True
    have "i * cols + j < Suc i * cols"
      using Suc.prems(2) by simp
    also have "Suc i * cols \<le> rows * cols"
      using True by (intro mult_le_mono1) simp
    finally have "i * cols + j < rows * cols" .
    then show ?thesis
      using True Suc by (simp add: nth_append length_grid)
  next
    case False
    then have "i = rows" using Suc.prems(1) by simp
    then show ?thesis
      using Suc.prems(2) by (simp add: nth_append length_grid)
  qed
qed

lemma length_concat_uniform:
  "(\<And>x. x \<in> set xs \<Longrightarrow> length x = k) \<Longrightarrow> length (concat xs) = k * length xs"
  by (induction xs) simp_all

lemma length_flat_grid:
  "length (concat (prepareObjectPoints rows cols s)) = 3 * (rows * cols)"
proof -
  have "length (concat (prepareObjectPoints rows cols s)) =
          3 * length (prepareObjectPoints rows cols s)"
    by (rule length_concat_uniform) (auto simp: prepareObjectPoints_eq)
  then show ?thesis
    by (simp only: prepareObjectPoints_eq length_grid)
qed

text \<open>
  C10. The grid generated for 6 columns, 6 rows and unit squares is exactly the 36 points
  from \<open>[0,0,0]\<close> to \<open>[5,5,0]\<close> in row-major order; in general the grid has
  \<open>rows * cols\<close> points and the point of row \<open>i\<close> and column \<open>j\<close>, at index
  \<open>i * cols + j\<close>, is \<open>[j * s, i * s, 0]\<close>.
\<close>

theorem prepareObjectPoints_grid:
  "prepareObjectPoints 6 6 1 =
     [[0,0,0],[1,0,0],[2,0,0],[3,0,0],[4,0,0],[5,0,0],
      [0,1,0],[1,1,0],[2,1,0],[3,1,0],[4,1,0],[5,1,0],
      [0,2,0],[1,2,0],[2,2,0],[3,2,0],[4,2,0],[5,2,0],
      [0,3,0],[1,3,0],[2,3,0],[3,3,0],[4,3,0],[5,3,0],
      [0,4,0],[1,4,0],[2,4,0],[3,4,0],[4,4,0],[5,4,0],
      [0,5,0],[1,5,0],[2,5,0],[3,5,0],[4,5,0],[5,5,0]] \<and>
   length (prepareObjectPoints rows cols s) = rows * cols \<and>
   (\<forall>i<rows. \<forall>j<cols.
      prepareObjectPoints rows cols s ! (i * cols + j) = [real j * s, real i * s, 0])"
proof (intro conjI allI impI)
  show "prepareObjectPoints 6 6 1 =
     [[0,0,0],[1,0,0],[2,0,0],[3,0,0],[4,0,0],[5,0,0],
      [0,1,0],[1,1,0],[2,1,0],[3,1,0],[4,1,0],[5,1,0],
      [0,2,0],[1,2,0],[2,2,0],[3,2,0],[4,2,0],[5,2,0],
      [0,3,0],[1,3,0],[2,3,0],[3,3,0],[4,3,0],[5,3,0],
      [0,4,0],[1,4,0],[2,4,0],[3,4,0],[4,4,0],[5,4,0],
      [0,5,0],[1,5,0],[2,5,0],[3,5,0],[4,5,0],[5,5,0]]"
    by (simp add: prepareObjectPoints_eq upt_rec)
  show "length (prepareObjectPoints rows cols s) = rows * cols"
    by (simp only: prepareObjectPoints_eq length_grid)
next
  fix i j assume "i < rows" "j < cols"
  then show "prepareObjectPoints rows cols s ! (i * cols + j) = [real j * s, real i * s, 0]"
    by (simp only: prepareObjectPoints_eq nth_grid)
qed

theorem prepareObjectPoints_grid_witness:
  "(5::nat) < 6 \<and> prepareObjectPoints 6 6 1 ! 35 = [5, 5, 0] \<and>
   length (prepareObjectPoints 6 6 1) = 36"
  using prepareObjectPoints_grid [of 6 6 1] by simp

section \<open>Guidance\<close>

lemma maxDiffs_ge_iff:
  "maxDiffs P H (a, b, c) = (a', b', c') \<Longrightarrow>
     (t \<le> a' \<longleftrightarrow> t \<le> a \<or> (\<exists>h\<in>set H. t \<le> \<bar>pitch P - pitch h\<bar>)) \<and>
     (t \<le> b' \<longleftrightarrow> t \<le> b \<or> (\<exists>h\<in>set H. t \<le> \<bar>yaw P - yaw h\<bar>)) \<and>
     (t \<le> c' \<longleftrightarrow> t \<le> c \<or> (\<exists>h\<in>set H. t \<le> \<bar>roll P - roll h\<bar>))"
proof (induction H arbitrary: a b c)
  case Nil
  then show ?case by simp
next
  case (Cons h H)
  from Cons.prems have
    "maxDiffs P H (max a \<bar>pitch P - pitch h\<bar>, max b \<bar>yaw P - yaw h\<bar>, max c \<bar>roll P - roll h\<bar>)
       = (a', b', c')"
    by simp
  from Cons.IH [OF this] show ?case
    by (simp add: le_max_iff_disj)
qed

lemma getGuidance_accept_iff:
  "getGuidance P H = AngleAcceptable \<longleftrightarrow>
     (\<exists>h\<in>set H. 10 \<le> \<bar>pitch P - pitch h\<bar>) \<and>
     (\<exists>h\<in>set H. 10 \<le> \<bar>yaw P - yaw h\<bar>) \<and>
     (\<exists>h\<in>set H. 10 \<le> \<bar>roll P - roll h\<bar>)"
proof -
  obtain a' b' c' where m: "maxDiffs P H (0, 0, 0) = (a', b', c')"
    by (cases "maxDiffs P H (0, 0, 0)") auto
  from maxDiffs_ge_iff [OF m, of 10] show ?thesis
    by (auto simp: getGuidance_def m threshold_def not_less)
qed

text \<open>
  C9. For every pose, guidance against the empty history is the pitch message (move
  vertically), and the pose is not accepted: the three maxima are still 0, below the
  threshold.
\<close>

theorem getGuidance_empty_history:
  "getGuidance P [] = MoveVertically \<and> \<not> accepted (Some (getGuidance P []))"
  by (simp add: getGuidance_def threshold_def accepted_def)

text \<open>
  C3 as stated fails: acceptance compares the largest difference over the history with
  the threshold, so one distant pose is enough. Against the history \<open>(0,0,0), (20,20,20)\<close>
  the pose \<open>(21,21,21)\<close> is accepted although it is one degree from the second entry.
\<close>

theorem getGuidance_accepts_near_pose:
  "getGuidance (pose 21 21 21 1) [pose 0 0 0 1, pose 20 20 20 1] = AngleAcceptable \<and>
   \<not> 10 \<le> \<bar>pitch (pose 21 21 21 1) - pitch (pose 20 20 20 1)\<bar>"
  by (simp add: getGuidance_def threshold_def pose_def)

text \<open>
  C3, amended. If a pose is accepted against a history, then on each axis some pose of
  the history (not necessarily every pose, nor the same pose for the three axes) differs
  from it by at least 10 degrees.
\<close>

theorem getGuidance_accept_some_distant:
  "getGuidance P H = AngleAcceptable \<Longrightarrow>
     (\<exists>h\<in>set H. 10 \<le> \<bar>pitch P - pitch h\<bar>) \<and>
     (\<exists>h\<in>set H. 10 \<le> \<bar>yaw P - yaw h\<bar>) \<and>
     (\<exists>h\<in>set H. 10 \<le> \<bar>roll P - roll h\<bar>)"
  by (simp add: getGuidance_accept_iff)

theorem getGuidance_accept_some_distant_witness:
  "getGuidance (pose 21 21 21 1) [pose 0 0 0 1, pose 20 20 20 1] = AngleAcceptable \<and>
   (\<exists>h\<in>set [pose 0 0 0 1, pose 20 20 20 1]. 10 \<le> \<bar>pitch (pose 21 21 21 1) - pitch h\<bar>)"
proof -
  have a: "getGuidance (pose 21 21 21 1) [pose 0 0 0 1, pose 20 20 20 1] = AngleAcceptable"
    by (simp add: getGuidance_def threshold_def pose_def)
  from getGuidance_accept_some_distant [OF a] a show ?thesis by blast
qed

section \<open>The throttler\<close>

text \<open>
  With a non-negative interval the stored timestamp only moves forward, and every firing
  call lies at least one interval after the timestamp stored before it.
\<close>

lemma runTrigger_spacing:
  assumes "interval tr = Finite d" "0 \<le> d" "runTrigger tr ts = (rs, tr')"
  shows "length rs = length ts \<and> lastTime tr \<le> lastTime tr' \<and> interval tr' = Finite d \<and>
         (\<forall>i<length ts. rs ! i \<longrightarrow> lastTime tr + d \<le> ts ! i \<and> ts ! i \<le> lastTime tr') \<and>
         (\<forall>j<length ts. \<forall>i<j. rs ! i \<longrightarrow> rs ! j \<longrightarrow> d \<le> ts ! j - ts ! i)"
  using assms
proof (induction ts arbitrary: tr rs tr')
  case Nil
  then show ?case by simp
next
  case (Cons t ts)
  obtain r tr1 where c: "callTrigger tr t = (r, tr1)"
    by (cases "callTrigger tr t") auto
  obtain rs1 where r: "runTrigger tr1 ts = (rs1, tr')" and rs: "rs = r # rs1"
    using Cons.prems(3) c by (auto split: prod.splits)
  have i1: "interval tr1 = Finite d"
    using c Cons.prems(1) by (auto simp: callTrigger_def split: if_splits)
  have l1: "lastTime tr \<le> lastTime tr1"
    using c Cons.prems(1,2) by (auto simp: callTrigger_def split: if_splits)
  have fire: "r \<Longrightarrow> lastTime tr + d \<le> t \<and> lastTime tr1 = t"
    using c Cons.prems(1) by (auto simp: callTrigger_def split: if_splits)
  note IH = Cons.IH [OF i1 Cons.prems(2) r]
  show ?case
  proof (intro conjI allI impI)
    show "length rs = length (t # ts)" using IH rs by simp
    show "lastTime tr \<le> lastTime tr'" using IH l1 by simp
    show "interval tr' = Finite d" using IH by simp
  next
    fix i assume "i < length (t # ts)" "rs ! i"
    then show "lastTime tr + d \<le> (t # ts) ! i"
      using IH l1 fire rs by (cases i) auto
  next
    fix i assume "i < length (t # ts)" "rs ! i"
    then show "(t # ts) ! i \<le> lastTime tr'"
      using IH l1 fire rs by (cases i) auto
  next
    fix j i assume "j < length (t # ts)" "i < j" "rs ! i" "rs ! j"
    then show "d \<le> (t # ts) ! j - (t # ts) ! i"
      using IH fire rs Cons.prems(2)
      by (cases j; cases i) fastforce+
  qed
qed

text \<open>
  C5 as stated fails on its example: the stored timestamp starts at 0, so the call at
  \<open>t = 0\<close> does not fire, and the call at \<open>t = 100\<close> does.
\<close>

theorem createTrigger_example_differs:
  "fst (runTrigger (createTrigger 10) [0, 50, 100, 150]) \<noteq> [True, False, False, True]"
  by (simp add: createTrigger_def intervalOf_def callTrigger_def)

text \<open>
  C5, amended. For a positive rate \<open>r\<close>, a call at \<open>t\<close> returns true exactly when
  \<open>1000 / r \<le> t - lastTime\<close>; it stores \<open>t\<close> when it returns true and changes nothing
  otherwise; over any sequence of calls (non-decreasing or not) two true-returning calls
  are at least \<open>1000 / r\<close> apart; and with rate 10 the calls at 0, 50, 100, 150 ms give
  false, false, true, false.
\<close>

theorem createTrigger_gate:
  "0 < r \<Longrightarrow>
     callTrigger \<lparr>lastTime = l, interval = intervalOf r\<rparr> t =
       (if 1000 / r \<le> t - l then (True, \<lparr>lastTime = t, interval = intervalOf r\<rparr>)
        else (False, \<lparr>lastTime = l, interval = intervalOf r\<rparr>)) \<and>
     (\<forall>ts rs tr' i j.
        runTrigger (createTrigger r) ts = (rs, tr') \<and> i < j \<and> j < length ts \<and> rs ! i \<and> rs ! j
          \<longrightarrow> 1000 / r \<le> ts ! j - ts ! i) \<and>
     fst (runTrigger (createTrigger 10) [0, 50, 100, 150]) = [False, False, True, False]"
proof (intro conjI allI impI)
  assume r: "0 < r"
  show "callTrigger \<lparr>lastTime = l, interval = intervalOf r\<rparr> t =
       (if 1000 / r \<le> t - l then (True, \<lparr>lastTime = t, interval = intervalOf r\<rparr>)
        else (False, \<lparr>lastTime = l, interval = intervalOf r\<rparr>))"
    using r by (simp add: callTrigger_def intervalOf_def)
  show "fst (runTrigger (createTrigger 10) [0, 50, 100, 150]) = [False, False, True, False]"
    by (simp add: createTrigger_def intervalOf_def callTrigger_def)
  fix ts rs tr' i j
  assume a: "runTrigger (createTrigger r) ts = (rs, tr') \<and> i < j \<and> j < length ts \<and> rs ! i \<and> rs ! j"
  have i: "interval (createTrigger r) = Finite (1000 / r)"
    using r by (simp add: createTrigger_def intervalOf_def)
  have d: "0 \<le> 1000 / r" using r by simp
  from runTrigger_spacing [OF i d] a show "1000 / r \<le> ts ! j - ts ! i"
    by blast
qed

theorem createTrigger_gate_witness:
  "(0::real) < 10 \<and>
   callTrigger \<lparr>lastTime = 0, interval = intervalOf 10\<rparr> 100 =
     (True, \<lparr>lastTime = 100, interval = intervalOf 10\<rparr>) \<and>
   fst (runTrigger (createTrigger 10) [0, 50, 100, 150, 200]) = [False, False, True, False, True] \<and>
   (1000::real) / 10 \<le> [0, 50, 100, 150, 200] ! 4 - [0, 50, 100, 150, 200] ! 2"
proof -
  have r: "(0::real) < 10" by simp
  have run: "fst (runTrigger (createTrigger 10) [0, 50, 100, 150, 200]) = [False, False, True, False, True]"
    by (simp add: createTrigger_def intervalOf_def callTrigger_def)
  from createTrigger_gate [OF r, of 0 100] r run show ?thesis by simp
qed

section \<open>The constructor and the frame rate\<close>

text \<open>The setter's matrix always fits its buffer, so the setter always sets \<open>objMat\<close>.\<close>

lemma setBlockConfigT_eq:
  "setBlockConfigT config this =
     this\<lparr>colNum := orElseNat (cfgColNum config) (colNum this),
          rowNum := orElseNat (cfgRowNum config) (rowNum this),
          squareSize := orElseReal (Some (cfgSquareSize config)) (squareSize this),
          objMat := Some
            \<lparr>matRows = orElseNat (cfgColNum config) (colNum this) *
                       orElseNat (cfgRowNum config) (rowNum this),
             matCols = 3, matType = CV_32F,
             matData = concat (prepareObjectPoints
               (orElseNat (cfgRowNum config) (rowNum this))
               (orElseNat (cfgColNum config) (colNum this))
               (orElseReal (Some (cfgSquareSize config)) (squareSize this)))\<rparr>\<rparr>"
  by (simp add: setBlockConfigT_def matFromArray_def length_flat_grid Let_def mult.commute)

lemma setBlockConfigT_objMat:
  "objMat (setBlockConfigT config this) \<noteq> None"
  by (simp add: setBlockConfigT_eq)

lemma fresh66_eq:
  "fresh66 =
     \<lparr>colNum = 6, rowNum = 6, squareSize = 1, anglesHist = [],
      fps = 10, trigger = \<lparr>lastTime = 0, interval = Finite 100\<rparr>, objMat = Some grid66Mat,
      objpointsMat = [], imgpointsMat = []\<rparr>"
  by (simp add: fresh66_def setBlockConfigT_eq Camera_constructor_def createTrigger_def
      intervalOf_def orElseReal_def orElseNat_def pattern66_def grid66Mat_def Let_def)

lemma drawT_fps:
  "drawT this f = Inr (this', c) \<Longrightarrow>
     fps this' = fps this \<and> interval (trigger this') = interval (trigger this)"
  by (auto simp: drawT_def callTrigger_def Let_def
      split: if_splits prod.splits option.splits sum.splits)

lemma runDrawT_fps:
  "runDrawT this fs = Inr (this', cs) \<Longrightarrow>
     fps this' = fps this \<and> interval (trigger this') = interval (trigger this)"
proof (induction fs arbitrary: this cs)
  case Nil
  then show ?case by simp
next
  case (Cons f fs)
  then obtain this1 c cs1 where d: "drawT this f = Inr (this1, c)"
      and r: "runDrawT this1 fs = Inr (this', cs1)"
    by (auto split: sum.splits prod.splits)
  from drawT_fps [OF d] Cons.IH [OF r] show ?case by simp
qed

text \<open>
  C6 as stated fails: the constructor rejects nothing. A negative rate is stored as
  given, and a zero rate is replaced by 10.
\<close>

theorem constructor_takes_any_fps:
  "fps (Camera_constructor \<lparr>cfgFps = Some (- 5)\<rparr>) = - 5 \<and>
   fps (Camera_constructor \<lparr>cfgFps = Some 0\<rparr>) = 10"
  by (simp add: Camera_constructor_def orElseReal_def)

text \<open>
  C6, amended. The frame rate is fixed at construction: a missing or zero \<open>fps\<close> becomes
  10, every other value, negative ones included, is taken as given; the throttler is
  created from that rate, and no tick changes the rate or the interval.
\<close>

theorem constructor_fps:
  "fps (Camera_constructor config) =
     (case cfgFps config of None \<Rightarrow> 10 | Some v \<Rightarrow> if v = 0 then 10 else v) \<and>
   trigger (Camera_constructor config) = createTrigger (fps (Camera_constructor config)) \<and>
   (\<forall>block fs this' cs.
      runDrawT (setBlockConfigT block (Camera_constructor config)) fs = Inr (this', cs) \<longrightarrow>
        fps this' = fps (Camera_constructor config) \<and>
        interval (trigger this') = intervalOf (fps (Camera_constructor config)))"
proof (intro conjI allI impI)
  show "fps (Camera_constructor config) =
     (case cfgFps config of None \<Rightarrow> 10 | Some v \<Rightarrow> if v = 0 then 10 else v)"
    by (simp add: Camera_constructor_def orElseReal_def Let_def)
  show "trigger (Camera_constructor config) = createTrigger (fps (Camera_constructor config))"
    by (simp add: Camera_constructor_def Let_def)
next
  fix block fs this' cs
  assume "runDrawT (setBlockConfigT block (Camera_constructor config)) fs = Inr (this', cs)"
  from runDrawT_fps [OF this]
  show "fps this' = fps (Camera_constructor config)"
    and "interval (trigger this') = intervalOf (fps (Camera_constructor config))"
    by (simp_all add: setBlockConfigT_eq Camera_constructor_def createTrigger_def Let_def)
qed

theorem constructor_fps_witness:
  "\<not> isl (runDrawT (setBlockConfigT pattern66 (Camera_constructor \<lparr>cfgFps = Some (- 5)\<rparr>))
            [detected 100 36 (pose 0 0 0 1)]) \<and>
   fps (fst (projr (runDrawT (setBlockConfigT pattern66 (Camera_constructor \<lparr>cfgFps = Some (- 5)\<rparr>))
            [detected 100 36 (pose 0 0 0 1)]))) = - 5"
proof -
  let ?run = "runDrawT (setBlockConfigT pattern66 (Camera_constructor \<lparr>cfgFps = Some (- 5)\<rparr>))
            [detected 100 36 (pose 0 0 0 1)]"
  have "\<exists>this' cs. ?run = Inr (this', cs)"
    by (simp add: setBlockConfigT_eq Camera_constructor_def createTrigger_def Let_def
        drawT_def callTrigger_def intervalOf_def orElseReal_def orElseNat_def pattern66_def
        detected_def minSamples_def matFromArray_def)
  then obtain this' cs where r: "?run = Inr (this', cs)" by blast
  have "fps (Camera_constructor \<lparr>cfgFps = Some (- 5)\<rparr>) = - 5"
    by (simp add: Camera_constructor_def orElseReal_def)
  moreover from constructor_fps [of "\<lparr>cfgFps = Some (- 5)\<rparr>"] r
  have "fps this' = fps (Camera_constructor \<lparr>cfgFps = Some (- 5)\<rparr>)"
    by blast
  ultimately show ?thesis by (simp only: r) simp
qed

section \<open>Sessions that start with an empty history\<close>

lemma draw_empty_history:
  "anglesHist this = [] \<Longrightarrow> draw this f = (this', tip) \<Longrightarrow>
     this' = this \<and> tip \<noteq> Some AngleAcceptable"
  by (auto simp: draw_def Let_def getGuidance_def threshold_def split: if_splits)

lemma runDraw_empty_history:
  "anglesHist this = [] \<Longrightarrow> runDraw this fs = (this', tips) \<Longrightarrow>
     this' = this \<and> Some AngleAcceptable \<notin> set tips"
proof (induction fs arbitrary: tips)
  case Nil
  then show ?case by simp
next
  case (Cons f fs)
  obtain this1 tip where d: "draw this f = (this1, tip)" by (cases "draw this f") auto
  obtain this2 tips1 where r: "runDraw this1 fs = (this2, tips1)" by (cases "runDraw this1 fs") auto
  from draw_empty_history [OF Cons.prems(1) d] have e: "this1 = this" "tip \<noteq> Some AngleAcceptable"
    by simp_all
  from Cons.IH [of tips1] Cons.prems d r e show ?case by auto
qed

lemma captureStep_empty_history:
  "capAnglesHist st = [] \<Longrightarrow> capCaptured st = 0 \<Longrightarrow>
     capAnglesHist (captureStep acc st frame) = [] \<and> capCaptured (captureStep acc st frame) = 0"
  by (auto simp: captureStep_def Let_def getGuidance_def threshold_def split: option.splits)

lemma captureLoop_returns:
  assumes ret: "captureLoop n acc capture k st = Some y"
  shows "\<not> (0 < n \<and> capAnglesHist st = [] \<and> capCaptured st = 0)"
proof (rule captureLoop.raw_induct
    [where P = "\<lambda>m a c j s z. \<not> (0 < m \<and> capAnglesHist s = [] \<and> capCaptured s = 0)", OF _ ret])
  fix loop :: "nat \<Rightarrow> real list list \<Rightarrow> (nat \<Rightarrow> Frame option) \<Rightarrow> nat \<Rightarrow> Capture \<Rightarrow> Capture option"
    and m a c j s z
  assume IH: "\<And>m a c j s z. loop m a c j s = Some z \<Longrightarrow>
                \<not> (0 < m \<and> capAnglesHist s = [] \<and> capCaptured s = 0)"
  assume body: "(if capCaptured s < m then loop m a c (Suc j) (captureStep a s (c j))
                 else Some (s\<lparr>guidance := Some CaptureFinished\<rparr>)) = Some z"
  show "\<not> (0 < m \<and> capAnglesHist s = [] \<and> capCaptured s = 0)"
  proof
    assume inv: "0 < m \<and> capAnglesHist s = [] \<and> capCaptured s = 0"
    with body have "loop m a c (Suc j) (captureStep a s (c j)) = Some z"
      by simp
    from IH [OF this] captureStep_empty_history [of s a "c j"] inv
    show False by simp
  qed
qed

lemma captureLoop_never:
  "0 < n \<Longrightarrow> capAnglesHist st = [] \<Longrightarrow> capCaptured st = 0 \<Longrightarrow>
     captureLoop n acc capture k st = None"
  using captureLoop_returns [of n acc capture k st] by (cases "captureLoop n acc capture k st") auto

text \<open>
  C1 as stated fails: the history grows only on acceptance and nothing is accepted
  against an empty one, so all four poses get the vertical tip.
\<close>

theorem scenario_not_as_expected:
  "snd (runDraw (setBlockConfig pattern66 newCamera) scenario) \<noteq>
     [Some MoveVertically, Some MoveHorizontally, Some RotateBoard, Some AngleAcceptable] \<and>
   map accepted (snd (runDraw (setBlockConfig pattern66 newCamera) scenario)) \<noteq>
     [False, False, False, True]"
  by (simp add: scenario_def detected_def draw_def setBlockConfig_def newCamera_def
      getGuidance_def threshold_def accepted_def Let_def)

text \<open>
  C1, amended. From an empty history with the \<open>6 \<times> 6\<close> pattern, the four poses
  \<open>(0,0,0,1), (15,0,0,1), (15,15,0,1), (15,15,15,1)\<close>, one per tick, give the acceptance
  sequence false, false, false, false and four times the vertical tip; the history is
  still empty and nothing was captured.
\<close>

theorem scenario_all_rejected:
  "snd (runDraw (setBlockConfig pattern66 newCamera) scenario) =
     [Some MoveVertically, Some MoveVertically, Some MoveVertically, Some MoveVertically] \<and>
   map accepted (snd (runDraw (setBlockConfig pattern66 newCamera) scenario)) =
     [False, False, False, False] \<and>
   anglesHist (fst (runDraw (setBlockConfig pattern66 newCamera) scenario)) = [] \<and>
   captured (fst (runDraw (setBlockConfig pattern66 newCamera) scenario)) = 0"
  by (simp add: scenario_def detected_def draw_def setBlockConfig_def newCamera_def
      getGuidance_def threshold_def accepted_def Let_def)

text \<open>
  C2. Against an empty history the guidance is never the accept message. Hence from a
  state with empty history and zero count, after any sequence of ticks the history is
  still empty, the count still 0 and no tip was the accept message; and for
  \<open>n \<ge> 1\<close> the hook's loop never completes, whatever the frames.
\<close>

theorem empty_history_never_accepts:
  "(\<forall>P. getGuidance P [] \<noteq> AngleAcceptable) \<and>
   (anglesHist this = [] \<and> captured this = 0 \<longrightarrow>
      anglesHist (fst (runDraw this fs)) = [] \<and> captured (fst (runDraw this fs)) = 0 \<and>
      Some AngleAcceptable \<notin> set (snd (runDraw this fs))) \<and>
   (1 \<le> n \<longrightarrow> captureWithGuidance n rows cols s capture = None)"
proof (intro conjI allI impI)
  fix P show "getGuidance P [] \<noteq> AngleAcceptable"
    by (simp add: getGuidance_def threshold_def)
next
  assume a: "anglesHist this = [] \<and> captured this = 0"
  obtain this' tips where r: "runDraw this fs = (this', tips)"
    by (cases "runDraw this fs") auto
  from runDraw_empty_history [OF _ r] a
  show "anglesHist (fst (runDraw this fs)) = []"
    and "captured (fst (runDraw this fs)) = 0"
    and "Some AngleAcceptable \<notin> set (snd (runDraw this fs))"
    by (simp_all add: r)
next
  assume "1 \<le> n"
  then show "captureWithGuidance n rows cols s capture = None"
    by (simp add: captureWithGuidance_def captureLoop_never newCapture_def)
qed

theorem empty_history_never_accepts_witness:
  "anglesHist (setBlockConfig pattern66 newCamera) = [] \<and>
   captured (setBlockConfig pattern66 newCamera) = 0 \<and>
   anglesHist (fst (runDraw (setBlockConfig pattern66 newCamera) scenario)) = [] \<and>
   captured (fst (runDraw (setBlockConfig pattern66 newCamera) scenario)) = 0 \<and>
   (1::nat) \<le> 15 \<and>
   captureWithGuidance 15 6 6 1 (\<lambda>k. Some (detected (500 * real k) 36 (pose 15 15 15 1))) = None"
proof -
  have a: "anglesHist (setBlockConfig pattern66 newCamera) = [] \<and>
           captured (setBlockConfig pattern66 newCamera) = 0"
    by (simp add: setBlockConfig_def newCamera_def Let_def)
  have n: "(1::nat) \<le> 15" by simp
  from empty_history_never_accepts
    [of "setBlockConfig pattern66 newCamera" scenario 15 6 6 1
        "\<lambda>k. Some (detected (500 * real k) 36 (pose 15 15 15 1))"] a n
  show ?thesis by blast
qed

section \<open>Storing samples and calling the solver\<close>

lemma drawT_stores:
  assumes "videoHeight f \<noteq> 0" "videoWidth f \<noteq> 0" "fst (callTrigger (trigger this) (now f))"
    "found f" "objMat this = Some m" "length (corners f) \<le> 2 * (colNum this * rowNum this)"
  shows "drawT this f =
    Inr (this\<lparr>trigger := snd (callTrigger (trigger this) (now f)),
              objpointsMat := objpointsMat this @ [m],
              imgpointsMat := imgpointsMat this @
                [\<lparr>matRows = colNum this * rowNum this, matCols = 2, matType = CV_32F,
                  matData = corners f\<rparr>]\<rparr>,
         if minSamples \<le> Suc (length (objpointsMat this))
         then Some \<lparr>solverObjpoints = objpointsMat this @ [m],
                    solverImgpoints = imgpointsMat this @
                      [\<lparr>matRows = colNum this * rowNum this, matCols = 2, matType = CV_32F,
                        matData = corners f\<rparr>],
                    solverImageSize = (videoWidth f, videoHeight f)\<rparr>
         else None)"
  using assms
  by (cases "callTrigger (trigger this) (now f)")
     (simp add: drawT_def Let_def calibrateCamera_def matFromArray_def)

lemma drawT_throws:
  assumes "videoHeight f \<noteq> 0" "videoWidth f \<noteq> 0" "fst (callTrigger (trigger this) (now f))"
    "found f" "objMat this = Some m" "2 * (colNum this * rowNum this) < length (corners f)"
  shows "drawT this f =
    Inl (RangeError,
         this\<lparr>trigger := snd (callTrigger (trigger this) (now f)),
              objpointsMat := objpointsMat this @ [m]\<rparr>)"
  using assms
  by (cases "callTrigger (trigger this) (now f)")
     (simp add: drawT_def Let_def matFromArray_def)

lemma drawT_skips:
  assumes "\<not> (videoHeight f \<noteq> 0 \<and> videoWidth f \<noteq> 0 \<and> fst (callTrigger (trigger this) (now f)) \<and> found f)"
  shows "drawT this f =
    Inr (if videoHeight f = 0 \<or> videoWidth f = 0 then this
         else this\<lparr>trigger := snd (callTrigger (trigger this) (now f))\<rparr>, None)"
  using assms by (auto simp: drawT_def Let_def split: prod.splits)

lemma drawT_error:
  "drawT this f = Inl (e, st) \<Longrightarrow>
     videoHeight f \<noteq> 0 \<and> videoWidth f \<noteq> 0 \<and>
     fst (callTrigger (trigger this) (now f)) \<and> found f \<and>
     ((e = TypeError \<and> objMat this = None) \<or>
      (e = RangeError \<and> objMat this \<noteq> None \<and>
       2 * (colNum this * rowNum this) < length (corners f)))"
  by (auto simp: drawT_def Let_def matFromArray_def
      split: prod.splits if_splits option.splits sum.splits)

lemma drawT_length:
  assumes "drawT this f = Inr (this', c)"
  shows "length (objpointsMat this') = length (objpointsMat this) +
           (if videoHeight f \<noteq> 0 \<and> videoWidth f \<noteq> 0 \<and>
               fst (callTrigger (trigger this) (now f)) \<and> found f then 1 else 0)"
    and "length (imgpointsMat this') = length (imgpointsMat this) +
           (if videoHeight f \<noteq> 0 \<and> videoWidth f \<noteq> 0 \<and>
               fst (callTrigger (trigger this) (now f)) \<and> found f then 1 else 0)"
    and "c = (if length (objpointsMat this') = Suc (length (objpointsMat this)) \<and>
                 minSamples \<le> length (objpointsMat this')
              then Some \<lparr>solverObjpoints = objpointsMat this',
                         solverImgpoints = imgpointsMat this',
                         solverImageSize = (videoWidth f, videoHeight f)\<rparr>
              else None)"
  using assms
  by (auto simp: drawT_def Let_def calibrateCamera_def matFromArray_def
      split: prod.splits if_splits option.splits sum.splits)

lemma runDrawT_length:
  "runDrawT this fs = Inr (this', cs) \<Longrightarrow>
     length (objpointsMat this) \<le> length (objpointsMat this') \<and>
     (minSamples \<le> length (objpointsMat this) \<longrightarrow>
        length (filter (\<lambda>c. c \<noteq> None) cs) =
          length (objpointsMat this') - length (objpointsMat this))"
proof (induction fs arbitrary: this cs)
  case Nil
  then show ?case by simp
next
  case (Cons f fs)
  then obtain this1 c cs1 where d: "drawT this f = Inr (this1, c)"
      and r: "runDrawT this1 fs = Inr (this', cs1)" and cs: "cs = c # cs1"
    by (auto split: sum.splits prod.splits)
  from drawT_length [OF d] Cons.IH [OF r] cs show ?case
    by (auto split: if_splits)
qed



lemma fresh66_simps:
  "trigger fresh66 = \<lparr>lastTime = 0, interval = Finite 100\<rparr>"
  "objMat fresh66 = Some grid66Mat"
  "objpointsMat fresh66 = []" "imgpointsMat fresh66 = []"
  "colNum fresh66 = 6" "rowNum fresh66 = 6" "anglesHist fresh66 = []"
  by (simp_all add: fresh66_eq)

lemma seeded66_simps:
  "colNum seeded66 = 6" "rowNum seeded66 = 6" "objp seeded66 = prepareObjectPoints 6 6 1"
  "anglesHist seeded66 = [pose 0 0 0 1]" "objectPoints seeded66 = []" "imagePoints seeded66 = []"
  by (simp_all add: seeded66_def setBlockConfig_def newCamera_def pattern66_def
      orElseNat_def orElseReal_def Let_def)

lemma drawOutcome_eq:
  "drawOutcome cam f =
     (if videoHeight f \<noteq> 0 \<and> videoWidth f \<noteq> 0 \<and> found f \<and>
         (3 * (colNum cam * rowNum cam) < length (concat (objp cam)) \<or>
          2 * (colNum cam * rowNum cam) < length (corners f))
      then Inl (RangeError, cam) else Inr (draw cam f))"
  by (simp add: drawOutcome_def matFromArray_def mult.commute)

lemma detected_simps:
  "videoWidth (detected t n P) = 640" "videoHeight (detected t n P) = 480"
  "now (detected t n P) = t" "found (detected t n P)"
  "corners (detected t n P) = replicate (2 * n) 0" "angles (detected t n P) = P"
  by (simp_all add: detected_def)

text \<open>
  C4 as stated fails: no operation compares the two lengths or raises a dimension error.
  With the \<open>6 \<times> 6\<close> pattern (36 object points) a detection of 35 image points is stored
  and the tick returns normally.
\<close>

theorem short_sample_is_stored:
  "drawT fresh66 (detected 100 35 (pose 0 0 0 1)) =
     Inr (fresh66\<lparr>trigger := \<lparr>lastTime = 100, interval = Finite 100\<rparr>,
                 objpointsMat := [grid66Mat],
                 imgpointsMat :=
                   [\<lparr>matRows = 36, matCols = 2, matType = CV_32F,
                     matData = corners (detected 100 35 (pose 0 0 0 1))\<rparr>]\<rparr>,
          None) \<and>
   length (corners (detected 100 35 (pose 0 0 0 1))) = 2 * 35 \<and>
   length (prepareObjectPoints 6 6 1) = 36"
proof -
  have "length (prepareObjectPoints 6 6 1) = 36"
    by (simp only: prepareObjectPoints_eq length_grid)
  moreover have "fst (callTrigger (trigger fresh66) 100)"
    by (simp add: fresh66_simps callTrigger_def)
  ultimately show ?thesis
    by (simp add: drawT_stores [where m = grid66Mat]
        fresh66_simps detected_simps callTrigger_def minSamples_def)
qed

text \<open>
  C4, amended. The sample-accept path compares no lengths itself and has no dimension
  error. Its only failures are the TypeError of an unset object matrix and the
  RangeError that the library's \<open>matFromArray\<close> throws when the corner buffer is longer
  than the image matrix (more than \<open>rows * columns\<close> points). On an allowed tick with
  corners found and the object matrix set, the throttled \<open>draw\<close> appends the object
  matrix and the image matrix when the corner buffer fits (35 points against \<open>6 \<times> 6\<close>
  included), and otherwise throws without appending the image points. The guided
  \<open>draw\<close> throws in the same case, and for an oversized grid, before anything is
  evaluated or stored; when it returns, it appends the grid and the corner buffer
  exactly when the tip is the accept message.
\<close>

theorem sample_accept_outcomes:
  "(drawT this f = Inl (e, st) \<longrightarrow>
      (e = TypeError \<and> objMat this = None) \<or>
      (e = RangeError \<and> 2 * (colNum this * rowNum this) < length (corners f))) \<and>
   (objMat this = Some m \<and> videoHeight f \<noteq> 0 \<and> videoWidth f \<noteq> 0 \<and>
    fst (callTrigger (trigger this) (now f)) \<and> found f \<longrightarrow>
      (if length (corners f) \<le> 2 * (colNum this * rowNum this)
       then \<exists>this' c. drawT this f = Inr (this', c) \<and>
              objpointsMat this' = objpointsMat this @ [m] \<and>
              imgpointsMat this' = imgpointsMat this @
                [\<lparr>matRows = colNum this * rowNum this, matCols = 2, matType = CV_32F,
                  matData = corners f\<rparr>]
       else \<exists>st'. drawT this f = Inl (RangeError, st') \<and>
              imgpointsMat st' = imgpointsMat this)) \<and>
   drawOutcome cam f =
     (if videoHeight f \<noteq> 0 \<and> videoWidth f \<noteq> 0 \<and> found f \<and>
         (3 * (colNum cam * rowNum cam) < length (concat (objp cam)) \<or>
          2 * (colNum cam * rowNum cam) < length (corners f))
      then Inl (RangeError, cam) else Inr (draw cam f)) \<and>
   objectPoints (fst (draw cam f)) =
     (if videoHeight f \<noteq> 0 \<and> videoWidth f \<noteq> 0 \<and> found f \<and>
         getGuidance (angles f) (anglesHist cam) = AngleAcceptable
      then objectPoints cam @ [objp cam] else objectPoints cam) \<and>
   imagePoints (fst (draw cam f)) =
     (if videoHeight f \<noteq> 0 \<and> videoWidth f \<noteq> 0 \<and> found f \<and>
         getGuidance (angles f) (anglesHist cam) = AngleAcceptable
      then imagePoints cam @ [corners f] else imagePoints cam)"
proof (intro conjI impI)
  assume "drawT this f = Inl (e, st)"
  from drawT_error [OF this]
  show "(e = TypeError \<and> objMat this = None) \<or>
      (e = RangeError \<and> 2 * (colNum this * rowNum this) < length (corners f))"
    by blast
next
  assume a: "objMat this = Some m \<and> videoHeight f \<noteq> 0 \<and> videoWidth f \<noteq> 0 \<and>
    fst (callTrigger (trigger this) (now f)) \<and> found f"
  show "if length (corners f) \<le> 2 * (colNum this * rowNum this)
       then \<exists>this' c. drawT this f = Inr (this', c) \<and>
              objpointsMat this' = objpointsMat this @ [m] \<and>
              imgpointsMat this' = imgpointsMat this @
                [\<lparr>matRows = colNum this * rowNum this, matCols = 2, matType = CV_32F,
                  matData = corners f\<rparr>]
       else \<exists>st'. drawT this f = Inl (RangeError, st') \<and>
              imgpointsMat st' = imgpointsMat this"
  proof (cases "length (corners f) \<le> 2 * (colNum this * rowNum this)")
    case True
    with a show ?thesis by (simp add: drawT_stores [where m = m])
  next
    case False
    with a show ?thesis by (simp add: drawT_throws [where m = m])
  qed
next
  show "drawOutcome cam f =
     (if videoHeight f \<noteq> 0 \<and> videoWidth f \<noteq> 0 \<and> found f \<and>
         (3 * (colNum cam * rowNum cam) < length (concat (objp cam)) \<or>
          2 * (colNum cam * rowNum cam) < length (corners f))
      then Inl (RangeError, cam) else Inr (draw cam f))"
    by (rule drawOutcome_eq)
  show "objectPoints (fst (draw cam f)) =
     (if videoHeight f \<noteq> 0 \<and> videoWidth f \<noteq> 0 \<and> found f \<and>
         getGuidance (angles f) (anglesHist cam) = AngleAcceptable
      then objectPoints cam @ [objp cam] else objectPoints cam)"
    by (simp add: draw_def Let_def)
  show "imagePoints (fst (draw cam f)) =
     (if videoHeight f \<noteq> 0 \<and> videoWidth f \<noteq> 0 \<and> found f \<and>
         getGuidance (angles f) (anglesHist cam) = AngleAcceptable
      then imagePoints cam @ [corners f] else imagePoints cam)"
    by (simp add: draw_def Let_def)
qed

theorem sample_accept_outcomes_witness:
  "objMat fresh66 = Some grid66Mat \<and>
   videoHeight (detected 100 35 (pose 0 0 0 1)) \<noteq> 0 \<and>
   videoWidth (detected 100 35 (pose 0 0 0 1)) \<noteq> 0 \<and>
   fst (callTrigger (trigger fresh66) (now (detected 100 35 (pose 0 0 0 1)))) \<and>
   found (detected 100 35 (pose 0 0 0 1)) \<and>
   length (corners (detected 100 35 (pose 0 0 0 1))) \<le> 2 * (colNum fresh66 * rowNum fresh66) \<and>
   (\<exists>this' c. drawT fresh66 (detected 100 35 (pose 0 0 0 1)) = Inr (this', c) \<and>
      objpointsMat this' = [grid66Mat] \<and>
      imgpointsMat this' =
        [\<lparr>matRows = 36, matCols = 2, matType = CV_32F, matData = replicate 70 0\<rparr>]) \<and>
   2 * (colNum fresh66 * rowNum fresh66) < length (corners (detected 100 37 (pose 0 0 0 1))) \<and>
   (\<exists>st'. drawT fresh66 (detected 100 37 (pose 0 0 0 1)) = Inl (RangeError, st') \<and>
      imgpointsMat st' = []) \<and>
   drawOutcome seeded66 (detected 100 37 (pose 15 15 15 1)) = Inl (RangeError, seeded66) \<and>
   drawOutcome seeded66 (detected 100 35 (pose 15 15 15 1)) =
     Inr (draw seeded66 (detected 100 35 (pose 15 15 15 1))) \<and>
   imagePoints (fst (draw seeded66 (detected 100 35 (pose 15 15 15 1)))) = [replicate 70 0]"
proof -
  let ?f35 = "detected 100 35 (pose 0 0 0 1)"
  let ?f37 = "detected 100 37 (pose 0 0 0 1)"
  let ?g35 = "detected 100 35 (pose 15 15 15 1)"
  let ?g37 = "detected 100 37 (pose 15 15 15 1)"
  have h35: "objMat fresh66 = Some grid66Mat \<and>
     videoHeight ?f35 \<noteq> 0 \<and> videoWidth ?f35 \<noteq> 0 \<and>
     fst (callTrigger (trigger fresh66) (now ?f35)) \<and> found ?f35"
    by (simp add: fresh66_simps detected_simps callTrigger_def)
  have h37: "objMat fresh66 = Some grid66Mat \<and>
     videoHeight ?f37 \<noteq> 0 \<and> videoWidth ?f37 \<noteq> 0 \<and>
     fst (callTrigger (trigger fresh66) (now ?f37)) \<and> found ?f37"
    by (simp add: fresh66_simps detected_simps callTrigger_def)
  have l35: "length (corners ?f35) \<le> 2 * (colNum fresh66 * rowNum fresh66)"
    by (simp add: fresh66_simps detected_simps)
  have l37: "2 * (colNum fresh66 * rowNum fresh66) < length (corners ?f37)"
    by (simp add: fresh66_simps detected_simps)
  from sample_accept_outcomes [of fresh66 ?f35 _ _ grid66Mat] h35 l35
  have a: "\<exists>this' c. drawT fresh66 ?f35 = Inr (this', c) \<and>
      objpointsMat this' = objpointsMat fresh66 @ [grid66Mat] \<and>
      imgpointsMat this' = imgpointsMat fresh66 @
        [\<lparr>matRows = colNum fresh66 * rowNum fresh66, matCols = 2, matType = CV_32F,
          matData = corners ?f35\<rparr>]"
    by simp
  from sample_accept_outcomes [of fresh66 ?f37 _ _ grid66Mat] h37 l37
  have b: "\<exists>st'. drawT fresh66 ?f37 = Inl (RangeError, st') \<and>
      imgpointsMat st' = imgpointsMat fresh66"
    by simp
  have g: "length (concat (objp seeded66)) = 108"
    by (simp add: seeded66_simps length_flat_grid)
  from sample_accept_outcomes [of _ ?g37 _ _ _ seeded66] g
  have c: "drawOutcome seeded66 ?g37 = Inl (RangeError, seeded66)"
    by (simp add: seeded66_simps detected_simps)
  from sample_accept_outcomes [of _ ?g35 _ _ _ seeded66] g
  have d: "drawOutcome seeded66 ?g35 = Inr (draw seeded66 ?g35)"
    and e: "imagePoints (fst (draw seeded66 ?g35)) = [replicate 70 0]"
    by (simp_all add: seeded66_simps detected_simps getGuidance_def threshold_def pose_def)
  from h35 l35 l37 a b c d e show ?thesis
    by (simp add: fresh66_simps detected_simps)
qed




text \<open>
  C8. A tick of the throttled controller calls the solver exactly when it stores a sample
  and the count is then at least 15, with the full current object-point and image-point
  vectors and the image size; once 15 samples are held, the number of solver calls over
  any further ticks equals the number of samples stored on them.
\<close>

theorem calibration_on_stored_sample:
  "(drawT this f = Inr (this', c) \<longrightarrow>
      c = (if length (objpointsMat this') = Suc (length (objpointsMat this)) \<and>
              15 \<le> length (objpointsMat this')
           then Some \<lparr>solverObjpoints = objpointsMat this',
                      solverImgpoints = imgpointsMat this',
                      solverImageSize = (videoWidth f, videoHeight f)\<rparr>
           else None)) \<and>
   (runDrawT this fs = Inr (this'', cs) \<and> 15 \<le> length (objpointsMat this) \<longrightarrow>
      length (filter (\<lambda>c. c \<noteq> None) cs) =
        length (objpointsMat this'') - length (objpointsMat this))"
proof (intro conjI impI)
  assume "drawT this f = Inr (this', c)"
  from drawT_length(3) [OF this]
  show "c = (if length (objpointsMat this') = Suc (length (objpointsMat this)) \<and>
              15 \<le> length (objpointsMat this')
           then Some \<lparr>solverObjpoints = objpointsMat this',
                      solverImgpoints = imgpointsMat this',
                      solverImageSize = (videoWidth f, videoHeight f)\<rparr>
           else None)"
    by (simp add: minSamples_def)
next
  assume "runDrawT this fs = Inr (this'', cs) \<and> 15 \<le> length (objpointsMat this)"
  with runDrawT_length [of this fs this'' cs]
  show "length (filter (\<lambda>c. c \<noteq> None) cs) =
        length (objpointsMat this'') - length (objpointsMat this)"
    by (simp add: minSamples_def)
qed

lemma steady15:
  "\<exists>s. runDrawT fresh66 (steady 15) =
         Inr (s, [None, None, None, None, None, None, None, None, None, None, None, None,
                  None, None,
                  Some \<lparr>solverObjpoints = objpointsMat s, solverImgpoints = imgpointsMat s,
                        solverImageSize = (640, 480)\<rparr>]) \<and>
      length (objpointsMat s) = 15 \<and>
      trigger s = \<lparr>lastTime = 1500, interval = Finite 100\<rparr> \<and>
      objMat s = objMat fresh66 \<and> colNum s = 6 \<and> rowNum s = 6"
  by (simp add: steady_def upt_rec fresh66_eq Let_def detected_def drawT_def callTrigger_def
      minSamples_def calibrateCamera_def matFromArray_def)

theorem calibration_on_stored_sample_witness:
  "\<exists>s15 s16 call.
     runDrawT fresh66 (steady 15) =
       Inr (s15, [None, None, None, None, None, None, None, None, None, None, None, None,
                  None, None,
                  Some \<lparr>solverObjpoints = objpointsMat s15, solverImgpoints = imgpointsMat s15,
                        solverImageSize = (640, 480)\<rparr>]) \<and>
     15 \<le> length (objpointsMat s15) \<and>
     drawT s15 (detected 1600 36 (pose 0 0 0 1)) = Inr (s16, Some call) \<and>
     runDrawT s15 [detected 1600 36 (pose 0 0 0 1)] = Inr (s16, [Some call]) \<and>
     call = \<lparr>solverObjpoints = objpointsMat s16, solverImgpoints = imgpointsMat s16,
             solverImageSize = (640, 480)\<rparr> \<and>
     length (objpointsMat s16) = 16 \<and>
     length (filter (\<lambda>c. c \<noteq> None) [Some call]) =
       length (objpointsMat s16) - length (objpointsMat s15)"
proof -
  let ?f = "detected 1600 36 (pose 0 0 0 1)"
  from steady15 obtain s15 where
    run: "runDrawT fresh66 (steady 15) =
         Inr (s15, [None, None, None, None, None, None, None, None, None, None, None, None,
                  None, None,
                  Some \<lparr>solverObjpoints = objpointsMat s15, solverImgpoints = imgpointsMat s15,
                        solverImageSize = (640, 480)\<rparr>])"
    and len: "length (objpointsMat s15) = 15"
    and tr: "trigger s15 = \<lparr>lastTime = 1500, interval = Finite 100\<rparr>"
    and om: "objMat s15 = objMat fresh66"
    and cr: "colNum s15 = 6" "rowNum s15 = 6"
    by blast
  obtain s16 c where d: "drawT s15 ?f = Inr (s16, c)"
    and len16: "length (objpointsMat s16) = 16"
    using drawT_stores [of ?f s15 grid66Mat]
    by (simp add: detected_simps tr om cr fresh66_simps callTrigger_def len)
  then have r: "runDrawT s15 [?f] = Inr (s16, [c])"
    by simp
  from calibration_on_stored_sample [of s15 ?f s16 c "[?f]" s16 "[c]"] d r len len16
  have c: "c = Some \<lparr>solverObjpoints = objpointsMat s16, solverImgpoints = imgpointsMat s16,
                      solverImageSize = (640, 480)\<rparr>"
    and n: "length (filter (\<lambda>c. c \<noteq> None) [c]) =
              length (objpointsMat s16) - length (objpointsMat s15)"
    by (simp_all add: detected_simps)
  from run len d r c n len16 show ?thesis
    by (intro exI [of _ s15] exI [of _ s16]
        exI [of _ "\<lparr>solverObjpoints = objpointsMat s16, solverImgpoints = imgpointsMat s16,
                      solverImageSize = (640, 480)\<rparr>"]) simp
qed

end
